theory Spec2Isabelle
  imports Main "HOL-Library.List_Lexorder" "HOL-Library.Char_ord"
begin

section \<open>Strings and paths\<close>

text \<open>
  Python strings are modelled as \<^typ>\<open>string\<close>, one \<^typ>\<open>char\<close> per character of the
  source string. The functions of this section are the string methods and the
  \<^verbatim>\<open>os.path\<close> functions (POSIX flavour) that \<^verbatim>\<open>libscanbuild/arguments.py\<close> calls.
\<close>

text \<open>\<^verbatim>\<open>s.startswith(p)\<close>\<close>

definition startswith :: "string \<Rightarrow> string \<Rightarrow> bool" where
  "startswith s p \<longleftrightarrow> take (length p) s = p"

text \<open>\<^verbatim>\<open>s.endswith(p)\<close>\<close>

definition endswith :: "string \<Rightarrow> string \<Rightarrow> bool" where
  "endswith s p \<longleftrightarrow> length p \<le> length s \<and> drop (length s - length p) s = p"

text \<open>
  \<^verbatim>\<open>s.split(sep)\<close> for a one-character separator: every occurrence of the separator
  ends a segment, empty segments are kept, and the empty string splits into one empty
  segment.
\<close>

fun split :: "char \<Rightarrow> string \<Rightarrow> string list" where
  "split sep [] = [[]]"
| "split sep (c # cs) =
     (if c = sep then [] # split sep cs
      else (c # hd (split sep cs)) # tl (split sep cs))"

text \<open>\<^verbatim>\<open>sep.join(comps)\<close>\<close>

fun join_str :: "string \<Rightarrow> string list \<Rightarrow> string" where
  "join_str sep [] = []"
| "join_str sep [x] = x"
| "join_str sep (x # y # ys) = x @ sep @ join_str sep (y # ys)"

text \<open>\<^verbatim>\<open>posixpath.isabs\<close>\<close>

definition isabs :: "string \<Rightarrow> bool" where
  "isabs s \<longleftrightarrow> startswith s ''/''"

text \<open>\<^verbatim>\<open>posixpath.join(a, b)\<close> with one component \<open>b\<close>\<close>

definition join :: "string \<Rightarrow> string \<Rightarrow> string" where
  "join a b =
     (if startswith b ''/'' then b
      else if a = [] \<or> endswith a ''/'' then a @ b
      else a @ ''/'' @ b)"

text \<open>
  The loop of \<^verbatim>\<open>posixpath.normpath\<close> over the components of the path;
  \<open>new_comps\<close> is the list built so far.
\<close>

fun normpath_loop :: "nat \<Rightarrow> string list \<Rightarrow> string list \<Rightarrow> string list" where
  "normpath_loop initial_slashes new_comps [] = new_comps"
| "normpath_loop initial_slashes new_comps (cmp # comps) =
     (if cmp = '''' \<or> cmp = ''.'' then normpath_loop initial_slashes new_comps comps
      else if cmp \<noteq> ''..'' \<or> (initial_slashes = 0 \<and> new_comps = [])
              \<or> (new_comps \<noteq> [] \<and> last new_comps = ''..'')
        then normpath_loop initial_slashes (new_comps @ [cmp]) comps
      else if new_comps \<noteq> [] then normpath_loop initial_slashes (butlast new_comps) comps
      else normpath_loop initial_slashes new_comps comps)"

text \<open>\<^verbatim>\<open>posixpath.normpath\<close>\<close>

definition normpath :: "string \<Rightarrow> string" where
  "normpath path =
     (if path = [] then ''.''
      else
        let initial_slashes =
              (if startswith path ''/'' then
                 (if startswith path ''//'' \<and> \<not> startswith path ''///'' then 2 else 1)
               else (0::nat));
            comps = normpath_loop initial_slashes [] (split CHR ''/'' path);
            path' = join_str ''/'' comps;
            path'' = (if initial_slashes \<noteq> 0
                      then replicate initial_slashes CHR ''/'' @ path' else path')
        in if path'' = [] then ''.'' else path'')"

text \<open>
  \<^verbatim>\<open>os.path.abspath\<close>; \<open>cwd\<close> is what \<^verbatim>\<open>os.getcwd()\<close> returns, the one piece of
  process state the function reads.
\<close>

definition abspath :: "string \<Rightarrow> string \<Rightarrow> string" where
  "abspath cwd path = normpath (if \<not> isabs path then join cwd path else path)"

section \<open>The parsed arguments\<close>

text \<open>
  The \<^verbatim>\<open>argparse.Namespace\<close> that \<^verbatim>\<open>create_analyze_parser\<close> fills: one field per
  \<^verbatim>\<open>dest\<close> of the parser. A field whose argument has no default and was not given on
  the command line holds \<^verbatim>\<open>None\<close>.
\<close>

record namespace =
  verbose :: nat
  cdb :: string
  status_bugs :: bool
  excludes :: "string list"
  "output" :: string
  keep_empty :: bool
  html_title :: "string option"
  output_format :: string
  clang :: string
  output_failures :: bool
  analyze_headers :: bool
  stats :: bool
  internal_stats :: bool
  maxloop :: "int option"
  store_model :: "string option"
  constraints_model :: "string option"
  analyzer_config :: "string option"
  force_debug :: bool
  plugins :: "string list option"
  enable_checker :: "string list option"
  disable_checker :: "string list option"
  help_checkers :: bool
  help_checkers_verbose :: bool

section \<open>Normalization\<close>

text \<open>
  \<^verbatim>\<open>list(s)\<close> for a set \<open>s\<close>: the elements of the set, each once, in the iteration
  order of the set, which the language leaves open. The model is the relation between
  the set and every list the call may return.
\<close>

definition list_of_set :: "'a set \<Rightarrow> 'a list \<Rightarrow> bool" where
  "list_of_set s xs \<longleftrightarrow> set xs = s \<and> distinct xs"

text \<open>The first statement of \<^verbatim>\<open>normalize_args_for_analyze\<close>: the default of \<open>plugins\<close>.\<close>

definition default_plugins :: "namespace \<Rightarrow> namespace" where
  "default_plugins args = (if plugins args = None then args\<lparr>plugins := Some []\<rparr> else args)"

text \<open>The set \<^verbatim>\<open>uniq_excludes\<close> of \<^verbatim>\<open>normalize_args_for_analyze\<close>.\<close>

definition uniq_excludes :: "string \<Rightarrow> namespace \<Rightarrow> string set" where
  "uniq_excludes cwd args = set (map (abspath cwd) (excludes args))"

text \<open>
  \<^verbatim>\<open>normalize_args_for_analyze\<close> mutates its argument; \<open>args\<close> is the namespace before
  the call and \<open>args'\<close> a namespace the call may leave behind.
\<close>

definition normalize_args_for_analyze :: "string \<Rightarrow> namespace \<Rightarrow> namespace \<Rightarrow> bool" where
  "normalize_args_for_analyze cwd args args' \<longleftrightarrow>
     list_of_set (uniq_excludes cwd (default_plugins args)) (excludes args')
     \<and> args' = (default_plugins args)\<lparr>excludes := excludes args'\<rparr>"

section \<open>The comma-separated append action\<close>

text \<open>The exceptions of the Python code that the model makes explicit.\<close>

datatype py_error = KeyError | AttributeError

text \<open>
  The two arguments registered with \<^verbatim>\<open>action=AppendCommaSeparated\<close>; argparse derives
  their \<^verbatim>\<open>dest\<close> from the long option strings \<^verbatim>\<open>--enable-checker\<close> and
  \<^verbatim>\<open>--disable-checker\<close>.
\<close>

datatype dest = Enable_checker | Disable_checker

fun getattr :: "namespace \<Rightarrow> dest \<Rightarrow> string list option" where
  "getattr namespace Enable_checker = enable_checker namespace"
| "getattr namespace Disable_checker = disable_checker namespace"

fun setattr :: "namespace \<Rightarrow> dest \<Rightarrow> string list option \<Rightarrow> namespace" where
  "setattr namespace Enable_checker v = namespace\<lparr>enable_checker := v\<rparr>"
| "setattr namespace Disable_checker v = namespace\<lparr>disable_checker := v\<rparr>"

text \<open>
  \<^verbatim>\<open>AppendCommaSeparated.__call__\<close>, for the action whose \<^verbatim>\<open>self.dest\<close> is \<open>d\<close>.
  Calling \<^verbatim>\<open>extend\<close> on \<^verbatim>\<open>None\<close> would raise \<^verbatim>\<open>AttributeError\<close>.
\<close>

definition AppendCommaSeparated_call :: "dest \<Rightarrow> namespace \<Rightarrow> string \<Rightarrow> py_error + namespace" where
  "AppendCommaSeparated_call d namespace values =
     (let namespace1 =
            (if getattr namespace d = None then setattr namespace d (Some []) else namespace)
      in case getattr namespace1 d of
           None \<Rightarrow> Inl AttributeError
         | Some actual \<Rightarrow> Inr (setattr namespace1 d (Some (actual @ split CHR '','' values))))"

text \<open>
  The parser calls the action once per occurrence of the flag, in command-line order,
  each time on the namespace the previous call left; an exception ends the parse.
\<close>

fun call_occurrences :: "dest \<Rightarrow> namespace \<Rightarrow> string list \<Rightarrow> py_error + namespace" where
  "call_occurrences d namespace [] = Inr namespace"
| "call_occurrences d namespace (values # rest) =
     (case AppendCommaSeparated_call d namespace values of
        Inl e \<Rightarrow> Inl e
      | Inr namespace' \<Rightarrow> call_occurrences d namespace' rest)"

section \<open>The checker listings\<close>

text \<open>
  The checker dictionary \<^verbatim>\<open>Dict[str, Tuple[str, bool]]\<close>, as the list of its items
  (name, (description, active)) in iteration order. A dictionary holds each key once:
  \<open>distinct (map fst checkers)\<close>.
\<close>

type_synonym checkers = "(string \<times> string \<times> bool) list"

text \<open>\<^verbatim>\<open>print(s)\<close>: standard output grows by \<open>s\<close> and a newline.\<close>

definition print :: "string \<Rightarrow> string \<Rightarrow> string" where
  "print s stdout = stdout @ s @ [CHR 0x0A]"

text \<open>The loop \<^verbatim>\<open>for name in ...: print(name)\<close> of \<^verbatim>\<open>print_active_checkers\<close>.\<close>

fun print_names :: "string list \<Rightarrow> string \<Rightarrow> string" where
  "print_names [] stdout = stdout"
| "print_names (name # names) stdout = print_names names (print name stdout)"

definition print_active_checkers :: "checkers \<Rightarrow> string \<Rightarrow> string" where
  "print_active_checkers checkers stdout =
     print_names (sort (map fst (filter (\<lambda>(name, _, active). active) checkers))) stdout"

text \<open>The format specification \<^verbatim>\<open>{: <30}\<close>: left-aligned, filled with spaces to the width.\<close>

definition ljust :: "nat \<Rightarrow> string \<Rightarrow> string" where
  "ljust width s = s @ replicate (width - length s) CHR '' ''"

text \<open>
  The loop of \<^verbatim>\<open>print_checkers\<close> over the sorted names. The lookup
  \<^verbatim>\<open>checkers[name]\<close> raises \<^verbatim>\<open>KeyError\<close> for a name that is no key; the result is
  the exception, if one was raised, and standard output as the loop left it.
\<close>

fun print_checkers_loop :: "checkers \<Rightarrow> string list \<Rightarrow> string \<Rightarrow> py_error option \<times> string" where
  "print_checkers_loop checkers [] stdout = (None, stdout)"
| "print_checkers_loop checkers (name # names) stdout =
     (case map_of checkers name of
        None \<Rightarrow> (Some KeyError, stdout)
      | Some (description, active) \<Rightarrow>
          let prefix = (if active then ''+'' else '' '') in
          if length name > 30 then
            print_checkers_loop checkers names
              (print (replicate 35 CHR '' '' @ description)
                (print ('' '' @ prefix @ '' '' @ name) stdout))
          else
            print_checkers_loop checkers names
              (print ('' '' @ prefix @ '' '' @ ljust 30 name @ ''  '' @ description) stdout))"

definition print_checkers :: "checkers \<Rightarrow> string \<Rightarrow> py_error option \<times> string" where
  \<open>print_checkers checkers stdout =
     (case print_checkers_loop checkers (sort (map fst checkers))
             (print '''' (print ''available checkers:'' (print '''' stdout))) of
        (Some e, stdout') \<Rightarrow> (Some e, stdout')
      | (None, stdout') \<Rightarrow>
          (None,
           print ''''
             (print ''NOTE: "+" indicates that an analysis is enabled by default.''
               (print '''' stdout'))))\<close>

section \<open>Validation\<close>

text \<open>How a call ends: it returns, the process exits with a status, or an exception escapes.\<close>

datatype outcome = Return | SystemExit int | Raise py_error

text \<open>
  What \<^verbatim>\<open>validate_args_for_analyze\<close> uses of the \<^verbatim>\<open>argparse.ArgumentParser\<close>: the
  program name and the usage text that \<^verbatim>\<open>format_usage()\<close> returns.
\<close>

record parser =
  prog :: string
  format_usage :: string

text \<open>
  \<^verbatim>\<open>ArgumentParser.exit(status, message)\<close> writes the message, if any, to standard error
  and exits with the status; \<^verbatim>\<open>ArgumentParser.error(message)\<close> writes the usage text
  and exits with status 2 and the message \<^verbatim>\<open>prog: error: message\<close>.
\<close>

definition parser_exit :: "int \<Rightarrow> string option \<Rightarrow> string \<Rightarrow> outcome \<times> string" where
  "parser_exit status message stderr =
     (SystemExit status, (case message of None \<Rightarrow> stderr | Some m \<Rightarrow> stderr @ m))"

definition parser_error :: "parser \<Rightarrow> string \<Rightarrow> string \<Rightarrow> outcome \<times> string" where
  "parser_error p message stderr =
     parser_exit 2 (Some (prog p @ '': error: '' @ message @ [CHR 0x0A]))
       (stderr @ format_usage p)"

text \<open>
  \<^verbatim>\<open>validate_args_for_analyze\<close>. The collaborators are parameters: \<open>get_checkers\<close> is
  \<^verbatim>\<open>libscanbuild.clang.get_checkers\<close> and \<open>exists\<close> is \<^verbatim>\<open>os.path.exists\<close> on the
  file system of the call. The result is how the call ends, standard output and standard
  error; the function assigns nothing to \<open>args\<close>.
\<close>

definition validate_args_for_analyze ::
  "(string \<Rightarrow> string list option \<Rightarrow> checkers) \<Rightarrow> (string \<Rightarrow> bool) \<Rightarrow> parser \<Rightarrow> namespace
     \<Rightarrow> string \<Rightarrow> string \<Rightarrow> outcome \<times> string \<times> string" where
  "validate_args_for_analyze get_checkers exists p args stdout stderr =
     (if help_checkers_verbose args then
        (case print_checkers (get_checkers (clang args) (plugins args)) stdout of
           (Some e, stdout') \<Rightarrow> (Raise e, stdout', stderr)
         | (None, stdout') \<Rightarrow>
             (case parser_exit 0 None stderr of (r, stderr') \<Rightarrow> (r, stdout', stderr')))
      else if help_checkers args then
        (case parser_exit 0 None stderr of
           (r, stderr') \<Rightarrow>
             (r, print_active_checkers (get_checkers (clang args) (plugins args)) stdout,
              stderr'))
      else if \<not> exists (cdb args) then
        (case parser_error p ''compilation database is missing'' stderr of
           (r, stderr') \<Rightarrow> (r, stdout, stderr'))
      else (Return, stdout, stderr))"

section \<open>The output format flags\<close>

text \<open>
  An argument registered with \<^verbatim>\<open>action='store_const'\<close>: its option strings, its
  \<^verbatim>\<open>const\<close> and its \<^verbatim>\<open>default\<close>.
\<close>

record store_const =
  option_strings :: "string list"
  const :: string
  default :: string

text \<open>
  The arguments that \<^verbatim>\<open>create_analyze_parser\<close> adds to \<^verbatim>\<open>format_group\<close>, the
  mutually exclusive group, in the order of the calls; all three have
  \<^verbatim>\<open>dest='output_format'\<close>.
\<close>

definition format_group :: "store_const list" where
  "format_group =
     [\<lparr>option_strings = [''--plist'', ''-plist''], const = ''plist'', default = ''html''\<rparr>,
      \<lparr>option_strings = [''--plist-html'', ''-plist-html''], const = ''plist-html'',
        default = ''html''\<rparr>,
      \<lparr>option_strings = [''--plist-multi-file'', ''-plist-multi-file''],
        const = ''plist-multi-file'', default = ''html''\<rparr>]"

text \<open>
  Before it reads the command line, argparse gives a \<^verbatim>\<open>dest\<close> that the namespace lacks
  the default of the first action registered for it (the loop over the actions at the
  start of \<^verbatim>\<open>ArgumentParser.parse_known_args\<close>). \<open>None\<close> stands for the attribute
  the namespace does not have yet.
\<close>

fun set_defaults :: "store_const list \<Rightarrow> string option \<Rightarrow> string option" where
  "set_defaults [] v = v"
| "set_defaults (a # as) v = set_defaults as (if v = None then Some (default a) else v)"

text \<open>The action of a group that an argument string names exactly.\<close>

fun find_action :: "store_const list \<Rightarrow> string \<Rightarrow> store_const option" where
  "find_action [] arg = None"
| "find_action (a # as) arg = (if arg \<in> set (option_strings a) then Some a else find_action as arg)"

text \<open>
  argparse on the format flags of a command line. The input is the list of the option
  strings that the parser recognised on the command line, in order, as it resolved them
  (an abbreviation expanded to its option string, the values of other options left out).
  \<open>seen\<close> are the actions of the group taken so far. An action of a mutually exclusive
  group is an error (\<^verbatim>\<open>not allowed with argument\<close>) when another action of the
  group was taken before (the check of \<^verbatim>\<open>take_action\<close> in the parser against the
  conflicts of the action); otherwise \<^verbatim>\<open>store_const\<close> assigns its constant to the
  \<^verbatim>\<open>dest\<close>. Option
  strings that name no format flag belong to the other arguments of the parser and leave
  the field alone.
\<close>

fun take_actions :: "store_const list \<Rightarrow> string option \<Rightarrow> string list \<Rightarrow> string + string option" where
  "take_actions seen v [] = Inr v"
| "take_actions seen v (arg # args) =
     (case find_action format_group arg of
        None \<Rightarrow> take_actions seen v args
      | Some a \<Rightarrow>
          if \<exists>b \<in> set seen. b \<noteq> a then Inl ''not allowed with argument''
          else take_actions (a # seen) (Some (const a)) args)"

definition parse_output_format :: "string list \<Rightarrow> string + string option" where
  "parse_output_format args = take_actions [] (set_defaults format_group None) args"

section \<open>Auxiliary definitions and example inputs\<close>

text \<open>
  A namespace as the parser leaves it for a command line that gives four
  \<^verbatim>\<open>--exclude\<close> options and nothing else: every other field holds its default.
\<close>

definition parsed_example :: namespace where
  "parsed_example =
     \<lparr>verbose = 0, cdb = ''compile_commands.json'', status_bugs = False,
      excludes = [''third_party'', ''/src/../lib'', ''./third_party'', ''third_party''],
      output = ''/tmp'', keep_empty = False, html_title = None, output_format = ''html'',
      clang = ''clang'', output_failures = True, analyze_headers = False, stats = False,
      internal_stats = False, maxloop = None, store_model = None, constraints_model = None,
      analyzer_config = None, force_debug = False, plugins = None, enable_checker = None,
      disable_checker = None, help_checkers = False, help_checkers_verbose = False\<rparr>"

text \<open>One result of normalizing \<open>parsed_example\<close> in the directory \<^verbatim>\<open>/work\<close>.\<close>

definition normalized_example :: namespace where
  "normalized_example =
     parsed_example\<lparr>plugins := Some [], excludes := [''/lib'', ''/work/third_party'']\<rparr>"

text \<open>The same command line with one \<^verbatim>\<open>--load-plugin\<close> option.\<close>

definition plugin_example :: namespace where
  "plugin_example = parsed_example\<lparr>plugins := Some [''checker.so'']\<rparr>"

text \<open>
  Path components that the loop of \<^verbatim>\<open>normpath\<close> keeps as they are: none is empty,
  \<^verbatim>\<open>.\<close> or \<^verbatim>\<open>..\<close>.
\<close>

definition clean :: "string list \<Rightarrow> bool" where
  "clean comps \<longleftrightarrow> (\<forall>c \<in> set comps. c \<noteq> [] \<and> c \<noteq> ''.'' \<and> c \<noteq> ''..'')"

text \<open>
  The checker mapping of the specification's examples, with the inactive checker
  inserted first.
\<close>

definition example_checkers :: checkers where
  "example_checkers =
     [(''core.VeryLongCheckerNameExceedingThirtyChars'', ''d2'', False),
      (''core.A'', ''desc'', True)]"

text \<open>A mapping whose one checker has a name of exactly 30 characters.\<close>

definition thirty_checkers :: checkers where
  "thirty_checkers = [(''alpha.security.ArrayBoundCheck'', ''bounds'', True)]"

text \<open>A line of output: the text and its newline.\<close>

definition line :: "string \<Rightarrow> string" where
  "line s = s @ [CHR 0x0A]"

text \<open>
  The entry of one checker in the verbose listing, in the words of the specification: a
  marker (\<^verbatim>\<open>+\<close> if active, a space otherwise) and the name; the description on the
  following line, indented to a fixed column, if the name exceeds 30 characters, and
  otherwise on the same line, after the name padded to a fixed width.
\<close>

definition verbose_entry :: "string \<times> string \<times> bool \<Rightarrow> string" where
  "verbose_entry item =
     (case item of (name, description, active) \<Rightarrow>
        let marker = (if active then CHR ''+'' else CHR '' '') in
        if 30 < length name
        then line ([CHR '' '', marker, CHR '' ''] @ name)
               @ line (replicate 35 CHR '' '' @ description)
        else line ([CHR '' '', marker, CHR '' ''] @ name
                     @ replicate (30 - length name) CHR '' '' @ ''  '' @ description))"

text \<open>The header and the legend of the verbose listing.\<close>

definition listing_header :: string where
  "listing_header = line [] @ line ''available checkers:'' @ line []"

definition listing_legend :: string where
  \<open>listing_legend =
     line [] @ line ''NOTE: "+" indicates that an analysis is enabled by default.'' @ line []\<close>

text \<open>A parser, a checker catalogue and a file system for the examples.\<close>

definition example_parser :: parser where
  "example_parser =
     \<lparr>prog = ''analyze-build'', format_usage = ''usage: analyze-build [-h]'' @ [CHR 0x0A]\<rparr>"

definition example_get_checkers :: "string \<Rightarrow> string list option \<Rightarrow> checkers" where
  "example_get_checkers analyzer plugin_list = example_checkers"

definition example_exists :: "string \<Rightarrow> bool" where
  "example_exists path \<longleftrightarrow> path = ''build/compile_commands.json''"

text \<open>The actions of the format group that a command line takes, in order.\<close>

definition taken_actions :: "string list \<Rightarrow> store_const list" where
  "taken_actions args = List.map_filter (find_action format_group) args"

section \<open>Properties\<close>

subsection \<open>Splitting, joining and the loop of normpath\<close>

lemma split_not_Nil: "split sep s \<noteq> []"
  by (induction s) auto

lemma split_sep_free: "x \<in> set (split sep s) \<Longrightarrow> sep \<notin> set x"
proof (induction s arbitrary: x)
  case Nil
  then show ?case by simp
next
  case (Cons c cs)
  show ?case
  proof (cases "c = sep")
    case True
    with Cons show ?thesis by auto
  next
    case False
    obtain w ws where ws: "split sep cs = w # ws"
      using split_not_Nil [of sep cs] by (cases "split sep cs") auto
    with Cons False show ?thesis by auto
  qed
qed

lemma split_no_sep: "sep \<notin> set x \<Longrightarrow> split sep x = [x]"
  by (induction x) auto

lemma split_append_sep: "sep \<notin> set x \<Longrightarrow> split sep (x @ sep # rest) = x # split sep rest"
  by (induction x) auto

lemma split_join_str:
  "comps \<noteq> [] \<Longrightarrow> \<forall>c \<in> set comps. sep \<notin> set c \<Longrightarrow> split sep (join_str [sep] comps) = comps"
proof (induction comps)
  case Nil
  then show ?case by simp
next
  case (Cons x xs)
  show ?case
  proof (cases xs)
    case Nil
    with Cons.prems show ?thesis by (simp add: split_no_sep)
  next
    case (Cons y ys)
    with Cons.IH Cons.prems show ?thesis by (simp add: split_append_sep)
  qed
qed

lemma clean_butlast: "clean xs \<Longrightarrow> clean (butlast xs)"
  by (auto simp: clean_def dest: in_set_butlastD)

lemma clean_last: "clean xs \<Longrightarrow> xs \<noteq> [] \<Longrightarrow> last xs \<noteq> ''..''"
  using last_in_set [of xs] by (auto simp: clean_def)

lemma normpath_loop_clean:
  "0 < k \<Longrightarrow> clean acc \<Longrightarrow> clean (normpath_loop k acc comps)"
proof (induction comps arbitrary: acc)
  case Nil
  then show ?case by simp
next
  case (Cons c cs)
  have "\<exists>acc'. clean acc' \<and> normpath_loop k acc (c # cs) = normpath_loop k acc' cs"
  proof (cases "c = [] \<or> c = ''.''")
    case True
    with Cons.prems show ?thesis by auto
  next
    case skip: False
    show ?thesis
    proof (cases "c = ''..''")
      case True
      with Cons.prems clean_last [of acc] clean_butlast [of acc] show ?thesis
        by (cases "acc = []") auto
    next
      case False
      with skip Cons.prems have "clean (acc @ [c])"
        by (simp add: clean_def)
      with skip False show ?thesis by auto
    qed
  qed
  with Cons.IH Cons.prems(1) show ?case by auto
qed

lemma normpath_loop_sep_free:
  "\<forall>c \<in> set acc. sep \<notin> set c \<Longrightarrow> \<forall>c \<in> set comps. sep \<notin> set c
     \<Longrightarrow> \<forall>c \<in> set (normpath_loop k acc comps). sep \<notin> set c"
proof (induction comps arbitrary: acc)
  case Nil
  then show ?case by simp
next
  case (Cons c cs)
  have b: "\<forall>c \<in> set (butlast acc). sep \<notin> set c"
    using Cons.prems(1) by (auto dest: in_set_butlastD)
  have a: "\<forall>x \<in> set (acc @ [c]). sep \<notin> set x"
    using Cons.prems by simp
  have r: "\<forall>c \<in> set cs. sep \<notin> set c"
    using Cons.prems by simp
  have "normpath_loop k acc (c # cs) = normpath_loop k acc cs
      \<or> normpath_loop k acc (c # cs) = normpath_loop k (acc @ [c]) cs
      \<or> normpath_loop k acc (c # cs) = normpath_loop k (butlast acc) cs"
    by simp
  with Cons.IH [OF Cons.prems(1) r] Cons.IH [OF a r] Cons.IH [OF b r] show ?case
    by metis
qed

lemma normpath_loop_id: "clean comps \<Longrightarrow> normpath_loop k acc comps = acc @ comps"
  by (induction comps arbitrary: acc) (auto simp: clean_def)

lemma normpath_loop_skip: "normpath_loop k acc (replicate n [] @ comps) = normpath_loop k acc comps"
  by (induction n) auto

subsection \<open>Absolute paths\<close>

lemma join_str_head:
  assumes "clean comps" "\<forall>c \<in> set comps. CHR ''/'' \<notin> set c"
  shows "join_str ''/'' comps = [] \<or> hd (join_str ''/'' comps) \<noteq> CHR ''/''"
proof (cases comps)
  case Nil
  then show ?thesis by simp
next
  case (Cons x xs)
  with assms have "x \<noteq> []" "CHR ''/'' \<notin> set x"
    by (auto simp: clean_def)
  then have "hd x \<noteq> CHR ''/''"
    by (cases x) auto
  with Cons \<open>x \<noteq> []\<close> show ?thesis
    by (cases xs) auto
qed

lemma normpath_absolute:
  assumes "startswith p ''/''"
  shows "\<exists>k comps. (k = 1 \<or> k = 2) \<and> clean comps \<and> (\<forall>c \<in> set comps. CHR ''/'' \<notin> set c)
           \<and> normpath p = replicate k CHR ''/'' @ join_str ''/'' comps"
proof -
  define k :: nat where "k = (if startswith p ''//'' \<and> \<not> startswith p ''///'' then 2 else 1)"
  define comps where "comps = normpath_loop k [] (split CHR ''/'' p)"
  have k: "k = 1 \<or> k = 2" "0 < k"
    by (auto simp: k_def)
  have c: "clean comps"
    unfolding comps_def using k(2) by (rule normpath_loop_clean) (simp add: clean_def)
  have f: "\<forall>c \<in> set comps. CHR ''/'' \<notin> set c"
    unfolding comps_def by (rule normpath_loop_sep_free) (auto dest: split_sep_free)
  from assms have "p \<noteq> []"
    by (auto simp: startswith_def)
  with assms k have "normpath p = replicate k CHR ''/'' @ join_str ''/'' comps"
    by (auto simp: normpath_def Let_def k_def comps_def)
  with k c f show ?thesis by blast
qed

lemma normpath_canonical:
  assumes k: "k = 1 \<or> k = 2" and c: "clean comps"
    and f: "\<forall>c \<in> set comps. CHR ''/'' \<notin> set c"
  shows "normpath (replicate k CHR ''/'' @ join_str ''/'' comps)
           = replicate k CHR ''/'' @ join_str ''/'' comps"
proof -
  let ?j = "join_str ''/'' comps"
  let ?p = "replicate k CHR ''/'' @ ?j"
  have h: "?j = [] \<or> hd ?j \<noteq> CHR ''/''"
    using c f by (rule join_str_head)
  have s1: "startswith ?p ''/''"
    using k by (auto simp: startswith_def)
  have s2: "(startswith ?p ''//'' \<and> \<not> startswith ?p ''///'') \<longleftrightarrow> k = 2"
    using k h by (cases ?j) (auto simp: startswith_def numeral_2_eq_2)
  have sp: "split CHR ''/'' ?p = replicate k [] @ split CHR ''/'' ?j"
    by (induction k) auto
  have lp: "normpath_loop k [] (split CHR ''/'' ?j) = comps"
  proof (cases "comps = []")
    case True
    then show ?thesis by simp
  next
    case False
    with f have "split CHR ''/'' ?j = comps"
      using split_join_str [of comps "CHR ''/''"] by simp
    with c show ?thesis by (simp add: normpath_loop_id)
  qed
  have "normpath_loop k [] (split CHR ''/'' ?p) = comps"
    using lp by (simp only: sp normpath_loop_skip)
  moreover have "?p \<noteq> []"
    using k by auto
  ultimately show ?thesis
    using s1 s2 k by (auto simp: normpath_def Let_def)
qed

lemma normpath_idem: "startswith p ''/'' \<Longrightarrow> normpath (normpath p) = normpath p"
  using normpath_absolute [of p] normpath_canonical by metis

lemma isabs_normpath: "isabs p \<Longrightarrow> isabs (normpath p)"
  unfolding isabs_def using normpath_absolute [of p] by (auto simp: startswith_def)

lemma isabs_join: "isabs cwd \<Longrightarrow> isabs (join cwd p)"
  by (cases cwd) (auto simp: isabs_def join_def startswith_def)

lemma isabs_abspath: "isabs cwd \<Longrightarrow> isabs (abspath cwd p)"
  by (simp add: abspath_def isabs_normpath isabs_join)

lemma abspath_idem: "isabs cwd \<Longrightarrow> abspath cwd (abspath cwd p) = abspath cwd p"
proof -
  assume cwd: "isabs cwd"
  define q where "q = (if \<not> isabs p then join cwd p else p)"
  have q: "isabs q"
    using cwd by (simp add: q_def isabs_join)
  have "abspath cwd p = normpath q"
    by (simp add: abspath_def q_def)
  moreover have "isabs (normpath q)"
    using q by (rule isabs_normpath)
  ultimately show ?thesis
    using q by (simp add: abspath_def normpath_idem isabs_def)
qed

subsection \<open>Normalization\<close>

lemma normalize_returns: "\<exists>args'. normalize_args_for_analyze cwd args args'"
proof
  let ?a = "default_plugins args"
  show "normalize_args_for_analyze cwd args
          (?a\<lparr>excludes := remdups (map (abspath cwd) (excludes ?a))\<rparr>)"
    by (simp add: normalize_args_for_analyze_def list_of_set_def uniq_excludes_def)
qed

lemma excludes_default_plugins: "excludes (default_plugins args) = excludes args"
  by (simp add: default_plugins_def)

lemma normalize_example:
  "normalize_args_for_analyze ''/work'' parsed_example normalized_example"
proof -
  have "map (abspath ''/work'') (excludes parsed_example)
          = [''/work/third_party'', ''/lib'', ''/work/third_party'', ''/work/third_party'']"
    by code_simp
  then show ?thesis
    by (auto simp: normalize_args_for_analyze_def list_of_set_def uniq_excludes_def
        excludes_default_plugins normalized_example_def default_plugins_def parsed_example_def)
qed

lemma normalize_cases:
  assumes "normalize_args_for_analyze cwd args args'"
  obtains ys where "set ys = abspath cwd ` set (excludes args)" "distinct ys"
    "args' = args\<lparr>plugins := Some (case plugins args of None \<Rightarrow> [] | Some ps \<Rightarrow> ps),
                    excludes := ys\<rparr>"
proof
  let ?ys = "excludes args'"
  from assms show "set ?ys = abspath cwd ` set (excludes args)" "distinct ?ys"
    by (simp_all add: normalize_args_for_analyze_def list_of_set_def uniq_excludes_def
        excludes_default_plugins)
  from assms have "args' = (default_plugins args)\<lparr>excludes := ?ys\<rparr>"
    unfolding normalize_args_for_analyze_def by (rule conjunct2)
  also have "default_plugins args
      = args\<lparr>plugins := Some (case plugins args of None \<Rightarrow> [] | Some ps \<Rightarrow> ps)\<rparr>"
    by (cases "plugins args") (simp_all add: default_plugins_def)
  finally show "args' = args\<lparr>plugins := Some (case plugins args of None \<Rightarrow> [] | Some ps \<Rightarrow> ps),
                    excludes := ?ys\<rparr>" .
qed

text \<open>
  Claim C3. Normalization always ends, and in every namespace it leaves behind the field \<open>plugins\<close> is a list, never \<open>None\<close>: the empty list when the parser left \<open>None\<close> (the flag was omitted), and the list the parser built, unchanged, when the flag was given.
\<close>

theorem normalize_plugins:
  "(\<exists>args'. normalize_args_for_analyze cwd args args') \<and>
   (\<forall>args'. normalize_args_for_analyze cwd args args' \<longrightarrow>
      plugins args' \<noteq> None
      \<and> (plugins args = None \<longrightarrow> plugins args' = Some [])
      \<and> (\<forall>ps. plugins args = Some ps \<longrightarrow> plugins args' = Some ps))"
proof (intro conjI allI impI)
  show "\<exists>args'. normalize_args_for_analyze cwd args args'"
    by (rule normalize_returns)
next
  fix args'
  assume "normalize_args_for_analyze cwd args args'"
  then obtain ys where
    "args' = args\<lparr>plugins := Some (case plugins args of None \<Rightarrow> [] | Some ps \<Rightarrow> ps),
                    excludes := ys\<rparr>"
    by (rule normalize_cases)
  then show "plugins args' \<noteq> None" "plugins args = None \<Longrightarrow> plugins args' = Some []"
    "\<And>ps. plugins args = Some ps \<Longrightarrow> plugins args' = Some ps"
    by simp_all
qed

text \<open>
  Claim C9. Normalization changes the fields \<open>plugins\<close> and \<open>excludes\<close> only: every other field of the namespace it leaves behind is the field of the namespace it was given.
\<close>

theorem normalize_frame:
  "(\<exists>args'. normalize_args_for_analyze cwd args args') \<and>
   (\<forall>args'. normalize_args_for_analyze cwd args args' \<longrightarrow>
      verbose args' = verbose args \<and> cdb args' = cdb args
      \<and> status_bugs args' = status_bugs args \<and> output args' = output args
      \<and> keep_empty args' = keep_empty args \<and> html_title args' = html_title args
      \<and> output_format args' = output_format args \<and> clang args' = clang args
      \<and> output_failures args' = output_failures args
      \<and> analyze_headers args' = analyze_headers args \<and> stats args' = stats args
      \<and> internal_stats args' = internal_stats args \<and> maxloop args' = maxloop args
      \<and> store_model args' = store_model args
      \<and> constraints_model args' = constraints_model args
      \<and> analyzer_config args' = analyzer_config args \<and> force_debug args' = force_debug args
      \<and> enable_checker args' = enable_checker args
      \<and> disable_checker args' = disable_checker args
      \<and> help_checkers args' = help_checkers args
      \<and> help_checkers_verbose args' = help_checkers_verbose args
      \<and> args' = args\<lparr>plugins := plugins args', excludes := excludes args'\<rparr>)"
proof (intro conjI allI impI)
  show "\<exists>args'. normalize_args_for_analyze cwd args args'"
    by (rule normalize_returns)
next
  fix args'
  assume "normalize_args_for_analyze cwd args args'"
  then obtain ys where
    "args' = args\<lparr>plugins := Some (case plugins args of None \<Rightarrow> [] | Some ps \<Rightarrow> ps),
                    excludes := ys\<rparr>"
    by (rule normalize_cases)
  then show "verbose args' = verbose args" "cdb args' = cdb args"
      "status_bugs args' = status_bugs args" "output args' = output args"
      "keep_empty args' = keep_empty args" "html_title args' = html_title args"
      "output_format args' = output_format args" "clang args' = clang args"
      "output_failures args' = output_failures args"
      "analyze_headers args' = analyze_headers args" "stats args' = stats args"
      "internal_stats args' = internal_stats args" "maxloop args' = maxloop args"
      "store_model args' = store_model args"
      "constraints_model args' = constraints_model args"
      "analyzer_config args' = analyzer_config args" "force_debug args' = force_debug args"
      "enable_checker args' = enable_checker args"
      "disable_checker args' = disable_checker args"
      "help_checkers args' = help_checkers args"
      "help_checkers_verbose args' = help_checkers_verbose args"
      "args' = args\<lparr>plugins := plugins args', excludes := excludes args'\<rparr>"
    by simp_all
qed

text \<open>
  Claim C2. In a process whose working directory is an absolute path, normalization always ends and leaves in \<open>excludes\<close> a list of exactly the absolute-path forms of the given entries: every element is absolute, no element occurs twice, and the length of the list is the number of distinct absolute-path forms. Nothing is said about the order of the list.
\<close>

theorem normalize_excludes:
  assumes "isabs cwd"
  shows "(\<exists>args'. normalize_args_for_analyze cwd args args') \<and>
   (\<forall>args'. normalize_args_for_analyze cwd args args' \<longrightarrow>
      set (excludes args') = abspath cwd ` set (excludes args)
      \<and> (\<forall>p \<in> set (excludes args'). isabs p)
      \<and> distinct (excludes args')
      \<and> length (excludes args') = card (abspath cwd ` set (excludes args)))"
proof (intro conjI allI impI)
  show "\<exists>args'. normalize_args_for_analyze cwd args args'"
    by (rule normalize_returns)
next
  fix args'
  assume "normalize_args_for_analyze cwd args args'"
  then obtain ys where ys: "set ys = abspath cwd ` set (excludes args)" "distinct ys"
    and "args' = args\<lparr>plugins := Some (case plugins args of None \<Rightarrow> [] | Some ps \<Rightarrow> ps),
                    excludes := ys\<rparr>"
    by (rule normalize_cases)
  then have e: "excludes args' = ys"
    by simp
  from ys show "set (excludes args') = abspath cwd ` set (excludes args)"
    "distinct (excludes args')"
    by (simp_all add: e)
  from ys assms show "\<forall>p \<in> set (excludes args'). isabs p"
    by (auto simp: e isabs_abspath)
  from ys show "length (excludes args') = card (abspath cwd ` set (excludes args))"
    using distinct_card [of ys] by (simp add: e)
qed

text \<open>
  Claim C6. Normalization is idempotent: a namespace \<open>args1\<close> that normalization left behind is itself a result of normalizing \<open>args1\<close>, and every result of normalizing it again has the same \<open>plugins\<close>, the same set of \<open>excludes\<close> in a duplicate-free list of the same length, and differs from \<open>args1\<close> in nothing but the order of \<open>excludes\<close>.
\<close>

theorem normalize_idempotent:
  assumes "isabs cwd" and "normalize_args_for_analyze cwd args args1"
  shows "normalize_args_for_analyze cwd args1 args1 \<and>
     (\<forall>args2. normalize_args_for_analyze cwd args1 args2 \<longrightarrow>
        plugins args2 = plugins args1
        \<and> set (excludes args2) = set (excludes args1)
        \<and> distinct (excludes args2)
        \<and> length (excludes args2) = length (excludes args1)
        \<and> args2 = args1\<lparr>excludes := excludes args2\<rparr>)"
proof -
  from assms(2) obtain ys where ys: "set ys = abspath cwd ` set (excludes args)" "distinct ys"
    and a1: "args1 = args\<lparr>plugins := Some (case plugins args of None \<Rightarrow> [] | Some ps \<Rightarrow> ps),
                    excludes := ys\<rparr>"
    by (rule normalize_cases)
  have e1: "excludes args1 = ys" and p1: "plugins args1 \<noteq> None"
    by (simp_all add: a1)
  have d1: "default_plugins args1 = args1"
    using p1 by (simp add: default_plugins_def)
  have fp: "abspath cwd ` set ys = set ys"
    using assms(1) by (auto simp: ys(1) abspath_idem image_iff)
  have "normalize_args_for_analyze cwd args1 args1"
    using ys(2) fp by (simp add: normalize_args_for_analyze_def list_of_set_def
        uniq_excludes_def d1 e1)
  moreover have "plugins args2 = plugins args1
        \<and> set (excludes args2) = set (excludes args1)
        \<and> distinct (excludes args2)
        \<and> length (excludes args2) = length (excludes args1)
        \<and> args2 = args1\<lparr>excludes := excludes args2\<rparr>"
    if "normalize_args_for_analyze cwd args1 args2" for args2
  proof -
    from that have s: "set (excludes args2) = set ys" and d: "distinct (excludes args2)"
      and a2: "args2 = args1\<lparr>excludes := excludes args2\<rparr>"
      by (simp_all add: normalize_args_for_analyze_def list_of_set_def uniq_excludes_def
          d1 e1 fp)
    from a2 [THEN arg_cong, of plugins] have "plugins args2 = plugins args1"
      by simp
    moreover from s d ys(2) have "length (excludes args2) = length ys"
      by (metis distinct_card)
    ultimately show ?thesis
      using s d a2 by (simp add: e1)
  qed
  ultimately show ?thesis by blast
qed

lemma isabs_work: "isabs ''/work''"
  by (simp add: isabs_def startswith_def)

lemma normalize_plugin_example:
  "normalize_args_for_analyze ''/work'' plugin_example
     (plugin_example\<lparr>excludes := [''/work/third_party'', ''/lib'']\<rparr>)"
proof -
  have "map (abspath ''/work'') (excludes plugin_example)
          = [''/work/third_party'', ''/lib'', ''/work/third_party'', ''/work/third_party'']"
    by code_simp
  then show ?thesis
    by (auto simp: normalize_args_for_analyze_def list_of_set_def uniq_excludes_def
        excludes_default_plugins default_plugins_def plugin_example_def parsed_example_def)
qed

text \<open>
  The theorem at two inputs: \<open>parsed_example\<close>, where the flag was omitted, and \<open>plugin_example\<close>, where one plugin was given.
\<close>

theorem normalize_plugins_witness:
  "normalize_args_for_analyze ''/work'' parsed_example normalized_example
   \<and> plugins parsed_example = None \<and> plugins normalized_example = Some []
   \<and> normalize_args_for_analyze ''/work'' plugin_example
        (plugin_example\<lparr>excludes := [''/work/third_party'', ''/lib'']\<rparr>)
   \<and> plugins plugin_example = Some [''checker.so'']
   \<and> plugins (plugin_example\<lparr>excludes := [''/work/third_party'', ''/lib'']\<rparr>)
        = Some [''checker.so'']"
proof -
  have 1: "plugins parsed_example = None"
    by (simp add: parsed_example_def)
  have 2: "plugins plugin_example = Some [''checker.so'']"
    by (simp add: plugin_example_def)
  from normalize_plugins [of "''/work''" parsed_example] normalize_example 1
  have 3: "plugins normalized_example = Some []"
    by blast
  from normalize_plugins [of "''/work''" plugin_example] normalize_plugin_example 2
  have 4: "plugins (plugin_example\<lparr>excludes := [''/work/third_party'', ''/lib'']\<rparr>)
        = Some [''checker.so'']"
    by blast
  from normalize_example normalize_plugin_example 1 2 3 4 show ?thesis
    by (intro conjI)
qed

text \<open>
  The theorem at \<open>parsed_example\<close>.
\<close>

theorem normalize_frame_witness:
  "normalize_args_for_analyze ''/work'' parsed_example normalized_example
   \<and> cdb normalized_example = ''compile_commands.json''
   \<and> output_format normalized_example = ''html''
   \<and> clang normalized_example = ''clang''
   \<and> enable_checker normalized_example = None
   \<and> normalized_example
       = parsed_example\<lparr>plugins := plugins normalized_example,
                         excludes := excludes normalized_example\<rparr>"
proof -
  from normalize_frame [of "''/work''" parsed_example] normalize_example
  have "cdb normalized_example = cdb parsed_example"
    "output_format normalized_example = output_format parsed_example"
    "clang normalized_example = clang parsed_example"
    "enable_checker normalized_example = enable_checker parsed_example"
    "normalized_example
       = parsed_example\<lparr>plugins := plugins normalized_example,
                         excludes := excludes normalized_example\<rparr>"
    by blast+
  with normalize_example show ?thesis
    by (simp add: parsed_example_def)
qed

text \<open>
  The theorem at \<open>parsed_example\<close>, whose four entries (one of them twice, three of them relative) have two distinct absolute-path forms.
\<close>

theorem normalize_excludes_witness:
  "isabs ''/work''
   \<and> normalize_args_for_analyze ''/work'' parsed_example normalized_example
   \<and> excludes normalized_example = [''/lib'', ''/work/third_party'']
   \<and> card (abspath ''/work'' ` set (excludes parsed_example)) = 2
   \<and> isabs ''/lib'' \<and> isabs ''/work/third_party''"
proof -
  have e: "excludes normalized_example = [''/lib'', ''/work/third_party'']"
    by (simp add: normalized_example_def)
  from normalize_excludes [OF isabs_work, of parsed_example] normalize_example
  have "\<forall>p \<in> set (excludes normalized_example). isabs p"
    and "length (excludes normalized_example)
           = card (abspath ''/work'' ` set (excludes parsed_example))"
    by blast+
  with isabs_work normalize_example show ?thesis
    by (simp add: e)
qed

text \<open>
  The theorem at \<open>parsed_example\<close> and its normal form \<open>normalized_example\<close>.
\<close>

theorem normalize_idempotent_witness:
  "isabs ''/work''
   \<and> normalize_args_for_analyze ''/work'' parsed_example normalized_example
   \<and> normalize_args_for_analyze ''/work'' normalized_example normalized_example"
proof -
  from normalize_idempotent [OF isabs_work normalize_example]
  have "normalize_args_for_analyze ''/work'' normalized_example normalized_example"
    by (rule conjunct1)
  with isabs_work normalize_example show ?thesis
    by (intro conjI)
qed

subsection \<open>The comma-separated append action\<close>

lemma getattr_setattr: "getattr (setattr namespace d v) d = v"
  by (cases d) simp_all

lemma setattr_setattr: "setattr (setattr namespace d v) d w = setattr namespace d w"
  by (cases d) simp_all

lemma length_split: "length (split sep s) = Suc (count_list s sep)"
  by (induction s) (auto simp: Suc_pred)

lemma join_str_split: "join_str [sep] (split sep s) = s"
proof (induction s)
  case Nil
  then show ?case by simp
next
  case (Cons c cs)
  obtain w ws where ws: "split sep cs = w # ws"
    by (cases "split sep cs") (use length_split [of sep cs] in auto)
  with Cons show ?case
    by (cases ws) auto
qed

lemma AppendCommaSeparated_call_eq:
  "AppendCommaSeparated_call d namespace values =
     Inr (setattr namespace d
       (Some ((case getattr namespace d of None \<Rightarrow> [] | Some actual \<Rightarrow> actual)
                @ split CHR '','' values)))"
  by (cases "getattr namespace d")
    (simp_all add: AppendCommaSeparated_call_def getattr_setattr setattr_setattr)

lemma call_occurrences_eq:
  "call_occurrences d namespace occurrences =
     Inr (if occurrences = [] then namespace
          else setattr namespace d
            (Some ((case getattr namespace d of None \<Rightarrow> [] | Some actual \<Rightarrow> actual)
                     @ concat (map (split CHR '','') occurrences))))"
proof (induction occurrences arbitrary: namespace)
  case Nil
  then show ?case by simp
next
  case (Cons v vs)
  then show ?case
    by (simp add: AppendCommaSeparated_call_eq getattr_setattr setattr_setattr)
qed

text \<open>
  Claim C4. One call of the action never fails and leaves in its field the list that was there (the empty list when the field was \<open>None\<close>, which the first occurrence finds) followed by the segments of the value split on commas. A sequence of occurrences therefore leaves the old list followed by the concatenation, in order, of the segments of each value; with no occurrence the action is not called and the namespace is as it was. No segment is dropped: a value with \<open>n\<close> commas has \<open>n + 1\<close> segments, empty ones included, and joining them with commas gives the value back.
\<close>

theorem append_comma_separated:
  "(\<exists>namespace'. AppendCommaSeparated_call d namespace values = Inr namespace'
       \<and> getattr namespace' d
            = Some ((case getattr namespace d of None \<Rightarrow> [] | Some actual \<Rightarrow> actual)
                      @ split CHR '','' values))
   \<and> call_occurrences d namespace [] = Inr namespace
   \<and> (occurrences \<noteq> [] \<longrightarrow>
        (\<exists>namespace'. call_occurrences d namespace occurrences = Inr namespace'
           \<and> getattr namespace' d
                = Some ((case getattr namespace d of None \<Rightarrow> [] | Some actual \<Rightarrow> actual)
                          @ concat (map (split CHR '','') occurrences))))
   \<and> length (split CHR '','' values) = Suc (count_list values CHR '','')
   \<and> join_str '','' (split CHR '','' values) = values"
  by (simp add: AppendCommaSeparated_call_eq call_occurrences_eq getattr_setattr
      length_split join_str_split)

text \<open>
  The theorem at the command line \<^verbatim>\<open>--enable-checker a,b --enable-checker c\<close>, which yields \<^verbatim>\<open>[a, b, c]\<close>, and at a value with an empty segment in the middle and a trailing comma.
\<close>

theorem append_comma_separated_witness:
  "getattr parsed_example Enable_checker = None
   \<and> [''a,b'', ''c''] \<noteq> []
   \<and> (\<exists>namespace'. call_occurrences Enable_checker parsed_example [''a,b'', ''c''] = Inr namespace'
         \<and> getattr namespace' Enable_checker = Some [''a'', ''b'', ''c''])
   \<and> (\<exists>namespace'. AppendCommaSeparated_call Enable_checker parsed_example ''a,,b,'' = Inr namespace'
         \<and> getattr namespace' Enable_checker = Some [''a'', '''', ''b'', ''''])"
proof -
  have n: "getattr parsed_example Enable_checker = None"
    by (simp add: parsed_example_def)
  have s: "concat (map (split CHR '','') [''a,b'', ''c'']) = [''a'', ''b'', ''c'']"
    "split CHR '','' ''a,,b,'' = [''a'', '''', ''b'', '''']"
    by simp_all
  from append_comma_separated [of Enable_checker parsed_example "''a,,b,''" "[''a,b'', ''c'']"]
  show ?thesis
    unfolding n s by simp
qed

subsection \<open>The checker listings\<close>

lemma print_names_eq: "print_names names stdout = stdout @ concat (map line names)"
  by (induction names arbitrary: stdout) (simp_all add: print_def line_def)

lemma active_names:
  "set (map fst (filter (\<lambda>(name, _, active). active) checkers))
     = {name. \<exists>description. (name, description, True) \<in> set checkers}"
  by (force simp: image_iff)

text \<open>
  Claim C7. For a checker dictionary (each name is a key once), the active-only printer adds to standard output exactly the names whose active flag is true, each once and on a line of its own, in the lexicographic order of the names, and nothing else: no descriptions, no header.
\<close>

theorem print_active_checkers_output:
  assumes "distinct (map fst checkers)"
  shows "\<exists>names. sorted names \<and> distinct names
           \<and> set names = {name. \<exists>description. (name, description, True) \<in> set checkers}
           \<and> print_active_checkers checkers stdout = stdout @ concat (map line names)"
proof -
  let ?names = "sort (map fst (filter (\<lambda>(name, _, active). active) checkers))"
  have "distinct (map fst (filter (\<lambda>(name, _, active). active) checkers))"
    using assms by (rule distinct_map_filter)
  then have "distinct ?names"
    by simp
  moreover have "set ?names = {name. \<exists>description. (name, description, True) \<in> set checkers}"
    using active_names [of checkers] by simp
  moreover have "print_active_checkers checkers stdout = stdout @ concat (map line ?names)"
    by (simp add: print_active_checkers_def print_names_eq)
  moreover have "sorted ?names"
    by simp
  ultimately show ?thesis
    by blast
qed

lemma sort_example_checkers:
  "sort (map fst example_checkers)
     = [''core.A'', ''core.VeryLongCheckerNameExceedingThirtyChars'']"
  by (simp add: example_checkers_def)

text \<open>
  The theorem at the mapping of the specification's example: the output is the single line \<^verbatim>\<open>core.A\<close>.
\<close>

theorem print_active_checkers_output_witness:
  "distinct (map fst example_checkers)
   \<and> print_active_checkers example_checkers [] = line ''core.A''
   \<and> (\<exists>names. sorted names \<and> distinct names
         \<and> set names = {name. \<exists>description. (name, description, True) \<in> set example_checkers}
         \<and> print_active_checkers example_checkers [] = [] @ concat (map line names))"
proof -
  have d: "distinct (map fst example_checkers)"
    by (simp add: example_checkers_def)
  have "print_active_checkers example_checkers [] = line ''core.A''"
    by (simp add: print_active_checkers_def example_checkers_def print_def line_def)
  with d print_active_checkers_output [OF d, of "[]"] show ?thesis
    by (intro conjI)
qed

lemma print_checkers_loop_eq:
  assumes "set names \<subseteq> fst ` set checkers"
  shows "print_checkers_loop checkers names stdout
           = (None, stdout @ concat (map (\<lambda>name. verbose_entry (name, the (map_of checkers name)))
                                      names))"
  using assms
proof (induction names arbitrary: stdout)
  case Nil
  then show ?case by simp
next
  case (Cons name names)
  from Cons.prems have "name \<in> fst ` set checkers"
    by simp
  then obtain description active where l: "map_of checkers name = Some (description, active)"
    by (cases "map_of checkers name") (auto simp: map_of_eq_None_iff)
  from Cons.prems have "set names \<subseteq> fst ` set checkers"
    by simp
  note IH = Cons.IH [OF this]
  show ?case
    by (simp add: l IH Let_def verbose_entry_def print_def line_def ljust_def)
qed

lemma sorted_items:
  assumes "distinct (map fst checkers)"
  defines "items \<equiv> map (\<lambda>name. (name, the (map_of checkers name))) (sort (map fst checkers))"
  shows "map fst items = sort (map fst checkers)" and "set items = set checkers"
proof -
  show "map fst items = sort (map fst checkers)"
    by (simp add: items_def comp_def)
  have "(name, the (map_of checkers name)) \<in> set checkers" if "name \<in> fst ` set checkers" for name
  proof -
    from that obtain v where v: "(name, v) \<in> set checkers"
      by auto
    with assms(1) have "map_of checkers name = Some v"
      by simp
    with v show ?thesis by simp
  qed
  moreover have "(name, v) \<in> set items" if "(name, v) \<in> set checkers" for name v
  proof -
    from that assms(1) have "map_of checkers name = Some v"
      by simp
    moreover from that have "name \<in> set (sort (map fst checkers))"
      by (force simp: image_iff)
    ultimately show ?thesis
      unfolding items_def by (force simp: image_iff)
  qed
  ultimately show "set items = set checkers"
    by (auto simp: items_def)
qed

text \<open>
  Claim C8. For a checker dictionary, the verbose printer raises nothing and adds to standard output the header, then the entry of every checker, the entries sorted lexicographically by name and each rendered as \<open>verbose_entry\<close> says (marker, name, and the description on the same line after padding or, for a name of more than 30 characters, on the next line after a fixed indentation), and finally the legend that explains the marker.
\<close>

theorem print_checkers_output:
  assumes "distinct (map fst checkers)"
  shows "\<exists>items. sorted (map fst items) \<and> distinct (map fst items) \<and> set items = set checkers
           \<and> print_checkers checkers stdout
               = (None, stdout @ listing_header @ concat (map verbose_entry items)
                          @ listing_legend)"
proof -
  let ?items = "map (\<lambda>name. (name, the (map_of checkers name))) (sort (map fst checkers))"
  have f: "map fst ?items = sort (map fst checkers)" and s: "set ?items = set checkers"
    using sorted_items [OF assms] by simp_all
  have "sorted (map fst ?items)" "distinct (map fst ?items)"
    unfolding f using assms by simp_all
  moreover have "print_checkers checkers stdout
               = (None, stdout @ listing_header @ concat (map verbose_entry ?items)
                          @ listing_legend)"
    by (simp add: print_checkers_def print_checkers_loop_eq comp_def
        listing_header_def listing_legend_def print_def line_def)
  ultimately show ?thesis
    using s by blast
qed

lemma print_example_checkers:
  \<open>print_checkers example_checkers [] =
     (None,
      line [] @ line ''available checkers:'' @ line []
      @ line '' + core.A                          desc''
      @ line ''   core.VeryLongCheckerNameExceedingThirtyChars''
      @ line ''                                   d2''
      @ line [] @ line ''NOTE: "+" indicates that an analysis is enabled by default.''
      @ line [])\<close>
  by code_simp

text \<open>
  The theorem at the mapping of the specification's example, with the whole output written out.
\<close>

theorem print_checkers_output_witness:
  \<open>distinct (map fst example_checkers)
   \<and> print_checkers example_checkers [] =
       (None,
        line [] @ line ''available checkers:'' @ line []
        @ line '' + core.A                          desc''
        @ line ''   core.VeryLongCheckerNameExceedingThirtyChars''
        @ line ''                                   d2''
        @ line [] @ line ''NOTE: "+" indicates that an analysis is enabled by default.''
        @ line [])
   \<and> (\<exists>items. sorted (map fst items) \<and> distinct (map fst items)
         \<and> set items = set example_checkers
         \<and> print_checkers example_checkers []
             = (None, [] @ listing_header @ concat (map verbose_entry items) @ listing_legend))\<close>
proof -
  have d: "distinct (map fst example_checkers)"
    by (simp add: example_checkers_def)
  from d print_example_checkers print_checkers_output [OF d, of "[]"] show ?thesis
    by (intro conjI)
qed

text \<open>
  Claim C10. In the verbose listing the description follows 35 characters in both branches, so it starts at column 36: for a name of at most 30 characters (a name of exactly 30 included) the line is a space, the marker, a space, the name padded to 30 and two spaces, then the description; for a longer name the second line is 35 spaces, then the description.
\<close>

theorem description_column:
  assumes "map_of checkers name = Some (description, active)"
  shows "(length name \<le> 30 \<longrightarrow>
            print_checkers_loop checkers [name] stdout
              = (None, stdout @ ('' '' @ (if active then ''+'' else '' '') @ '' '' @ name
                                  @ replicate (30 - length name) CHR '' '' @ ''  '')
                              @ description @ [CHR 0x0A])
            \<and> length ('' '' @ (if active then ''+'' else '' '') @ '' '' @ name
                        @ replicate (30 - length name) CHR '' '' @ ''  '') = 35)
       \<and> (30 < length name \<longrightarrow>
            print_checkers_loop checkers [name] stdout
              = (None, stdout @ '' '' @ (if active then ''+'' else '' '') @ '' '' @ name
                              @ [CHR 0x0A]
                              @ replicate 35 CHR '' '' @ description @ [CHR 0x0A])
            \<and> length (replicate 35 CHR '' '') = 35)"
  using assms by (simp add: print_def ljust_def)

lemma print_thirty_checkers:
  "print_checkers_loop thirty_checkers [''alpha.security.ArrayBoundCheck''] []
     = (None, line '' + alpha.security.ArrayBoundCheck  bounds'')"
  by code_simp

lemma print_long_checker:
  "print_checkers_loop example_checkers [''core.VeryLongCheckerNameExceedingThirtyChars''] []
     = (None, line ''   core.VeryLongCheckerNameExceedingThirtyChars''
              @ line ''                                   d2'')"
  by code_simp

text \<open>
  The theorem at a name of exactly 30 characters, which takes the single-line form, and at the long name of the specification's example.
\<close>

theorem description_column_witness:
  "map_of thirty_checkers ''alpha.security.ArrayBoundCheck'' = Some (''bounds'', True)
   \<and> length ''alpha.security.ArrayBoundCheck'' = 30
   \<and> print_checkers_loop thirty_checkers [''alpha.security.ArrayBoundCheck''] []
       = (None, line '' + alpha.security.ArrayBoundCheck  bounds'')
   \<and> length ('' '' @ ''+'' @ '' '' @ ''alpha.security.ArrayBoundCheck''
               @ replicate (30 - length ''alpha.security.ArrayBoundCheck'') CHR '' '' @ ''  '')
       = 35
   \<and> map_of example_checkers ''core.VeryLongCheckerNameExceedingThirtyChars''
       = Some (''d2'', False)
   \<and> 30 < length ''core.VeryLongCheckerNameExceedingThirtyChars''
   \<and> print_checkers_loop example_checkers [''core.VeryLongCheckerNameExceedingThirtyChars''] []
       = (None, [] @ '' '' @ '' '' @ '' '' @ ''core.VeryLongCheckerNameExceedingThirtyChars''
                @ [CHR 0x0A] @ replicate 35 CHR '' '' @ ''d2'' @ [CHR 0x0A])"
proof -
  have 1: "map_of thirty_checkers ''alpha.security.ArrayBoundCheck'' = Some (''bounds'', True)"
    by (simp add: thirty_checkers_def)
  have 2: "map_of example_checkers ''core.VeryLongCheckerNameExceedingThirtyChars''
       = Some (''d2'', False)"
    by (simp add: example_checkers_def)
  have 3: "length ''alpha.security.ArrayBoundCheck'' = 30"
    "30 < length ''core.VeryLongCheckerNameExceedingThirtyChars''"
    by simp_all
  from description_column [OF 1, of "[]"] 3(1)
  have 4: "length ('' '' @ ''+'' @ '' '' @ ''alpha.security.ArrayBoundCheck''
               @ replicate (30 - length ''alpha.security.ArrayBoundCheck'') CHR '' '' @ ''  '')
       = 35"
    by simp
  from description_column [OF 2, of "[]"] 3(2)
  have 5: "print_checkers_loop example_checkers
             [''core.VeryLongCheckerNameExceedingThirtyChars''] []
       = (None, [] @ '' '' @ '' '' @ '' '' @ ''core.VeryLongCheckerNameExceedingThirtyChars''
                @ [CHR 0x0A] @ replicate 35 CHR '' '' @ ''d2'' @ [CHR 0x0A])"
    by simp
  from 1 2 3 4 5 print_thirty_checkers show ?thesis
    by (intro conjI)
qed

subsection \<open>Validation\<close>

lemma print_checkers_returns: "fst (print_checkers checkers stdout) = None"
proof -
  have "set (sort (map fst checkers)) \<subseteq> fst ` set checkers"
    by simp
  then show ?thesis
    by (simp add: print_checkers_def print_checkers_loop_eq)
qed

text \<open>
  Claim C1. The validator tests its conditions in order and the first that holds decides. With the verbose checker-help flag set it prints the verbose listing and exits with status 0, whatever the other flag and the file system say. Otherwise, with the checker-help flag set, it prints the active-only listing and exits with status 0. Otherwise, if the compilation database path does not exist, it writes the usage text and the message \<^verbatim>\<open>compilation database is missing\<close> to standard error and exits with status 2: the status is not 0, the call does not return, and standard output is untouched, so no listing was printed. Otherwise it returns, and nothing was written.
\<close>

theorem validate_order:
  "(help_checkers_verbose args \<longrightarrow>
      validate_args_for_analyze get_checkers exists p args stdout stderr
        = (SystemExit 0,
           snd (print_checkers (get_checkers (clang args) (plugins args)) stdout), stderr)
      \<and> fst (print_checkers (get_checkers (clang args) (plugins args)) stdout) = None)
   \<and> (\<not> help_checkers_verbose args \<and> help_checkers args \<longrightarrow>
      validate_args_for_analyze get_checkers exists p args stdout stderr
        = (SystemExit 0,
           print_active_checkers (get_checkers (clang args) (plugins args)) stdout, stderr))
   \<and> (\<not> help_checkers_verbose args \<and> \<not> help_checkers args \<and> \<not> exists (cdb args) \<longrightarrow>
      validate_args_for_analyze get_checkers exists p args stdout stderr
        = (SystemExit 2, stdout,
           stderr @ format_usage p @ prog p @ '': error: compilation database is missing''
             @ [CHR 0x0A])
      \<and> fst (validate_args_for_analyze get_checkers exists p args stdout stderr) \<noteq> SystemExit 0
      \<and> fst (validate_args_for_analyze get_checkers exists p args stdout stderr) \<noteq> Return)
   \<and> (\<not> help_checkers_verbose args \<and> \<not> help_checkers args \<and> exists (cdb args) \<longrightarrow>
      validate_args_for_analyze get_checkers exists p args stdout stderr
        = (Return, stdout, stderr))"
proof -
  obtain out where "print_checkers (get_checkers (clang args) (plugins args)) stdout
      = (None, out)"
    using print_checkers_returns [of "get_checkers (clang args) (plugins args)" stdout]
    by (cases "print_checkers (get_checkers (clang args) (plugins args)) stdout") simp
  then show ?thesis
    by (simp add: validate_args_for_analyze_def parser_exit_def parser_error_def)
qed

text \<open>
  The theorem on each of the four paths: no help flag and a missing database; no help flag and an existing database; the checker-help flag; both help flags.
\<close>

theorem validate_order_witness:
  "\<not> help_checkers_verbose parsed_example \<and> \<not> help_checkers parsed_example
   \<and> \<not> example_exists (cdb parsed_example)
   \<and> validate_args_for_analyze example_get_checkers example_exists example_parser
        parsed_example [] []
       = (SystemExit 2, [],
          ''usage: analyze-build [-h]'' @ [CHR 0x0A]
            @ ''analyze-build: error: compilation database is missing'' @ [CHR 0x0A])
   \<and> example_exists (cdb (parsed_example\<lparr>cdb := ''build/compile_commands.json''\<rparr>))
   \<and> validate_args_for_analyze example_get_checkers example_exists example_parser
        (parsed_example\<lparr>cdb := ''build/compile_commands.json''\<rparr>) [] []
       = (Return, [], [])
   \<and> help_checkers (parsed_example\<lparr>help_checkers := True\<rparr>)
   \<and> validate_args_for_analyze example_get_checkers example_exists example_parser
        (parsed_example\<lparr>help_checkers := True\<rparr>) [] []
       = (SystemExit 0, line ''core.A'', [])
   \<and> help_checkers_verbose
        (parsed_example\<lparr>help_checkers := True, help_checkers_verbose := True\<rparr>)
   \<and> validate_args_for_analyze example_get_checkers example_exists example_parser
        (parsed_example\<lparr>help_checkers := True, help_checkers_verbose := True\<rparr>) [] []
       = (SystemExit 0, snd (print_checkers example_checkers []), [])"
proof -
  have a: "print_active_checkers example_checkers [] = line ''core.A''"
    by (simp add: print_active_checkers_def example_checkers_def print_def line_def)
  have 1: "\<not> help_checkers_verbose parsed_example" "\<not> help_checkers parsed_example"
    "\<not> example_exists (cdb parsed_example)"
    by (simp_all add: parsed_example_def example_exists_def)
  from validate_order [of parsed_example example_get_checkers example_exists example_parser
      "[]" "[]"] 1
  have 2: "validate_args_for_analyze example_get_checkers example_exists example_parser
        parsed_example [] []
       = (SystemExit 2, [],
          ''usage: analyze-build [-h]'' @ [CHR 0x0A]
            @ ''analyze-build: error: compilation database is missing'' @ [CHR 0x0A])"
    by (simp add: example_parser_def)
  let ?b = "parsed_example\<lparr>cdb := ''build/compile_commands.json''\<rparr>"
  have 3: "\<not> help_checkers_verbose ?b" "\<not> help_checkers ?b" "example_exists (cdb ?b)"
    by (simp_all add: parsed_example_def example_exists_def)
  from validate_order [of ?b example_get_checkers example_exists example_parser "[]" "[]"] 3
  have 4: "validate_args_for_analyze example_get_checkers example_exists example_parser
        ?b [] [] = (Return, [], [])"
    by simp
  let ?c = "parsed_example\<lparr>help_checkers := True\<rparr>"
  have 5: "\<not> help_checkers_verbose ?c" "help_checkers ?c"
    by (simp_all add: parsed_example_def)
  from validate_order [of ?c example_get_checkers example_exists example_parser "[]" "[]"] 5
  have 6: "validate_args_for_analyze example_get_checkers example_exists example_parser
        ?c [] [] = (SystemExit 0, line ''core.A'', [])"
    by (simp add: example_get_checkers_def a)
  let ?d = "parsed_example\<lparr>help_checkers := True, help_checkers_verbose := True\<rparr>"
  have 7: "help_checkers_verbose ?d"
    by simp
  from validate_order [of ?d example_get_checkers example_exists example_parser "[]" "[]"] 7
  have 8: "validate_args_for_analyze example_get_checkers example_exists example_parser
        ?d [] [] = (SystemExit 0, snd (print_checkers example_checkers []), [])"
    by (simp add: example_get_checkers_def)
  from 1 2 3(3) 4 5(2) 6 7 8 show ?thesis
    by (intro conjI)
qed

subsection \<open>The output format flags\<close>

lemma find_action_member: "find_action actions arg = Some a \<Longrightarrow> a \<in> set actions"
  by (induction actions) (auto split: if_splits)

lemma find_action_format_group:
  "find_action format_group arg = Some a \<Longrightarrow>
     const a = ''plist'' \<or> const a = ''plist-html'' \<or> const a = ''plist-multi-file''"
  by (drule find_action_member) (auto simp: format_group_def)

lemma find_action_plist:
  "arg = ''--plist'' \<or> arg = ''-plist'' \<Longrightarrow>
     find_action format_group arg
       = Some \<lparr>option_strings = [''--plist'', ''-plist''], const = ''plist'', default = ''html''\<rparr>"
  by (auto simp: format_group_def)

lemma take_actions_eq:
  "take_actions seen v args =
     (if \<exists>c \<in> set (taken_actions args). \<exists>b \<in> set seen \<union> set (taken_actions args). b \<noteq> c
      then Inl ''not allowed with argument''
      else Inr (if taken_actions args = [] then v
                else Some (const (last (taken_actions args)))))"
proof (induction args arbitrary: seen v)
  case Nil
  then show ?case by (simp add: taken_actions_def)
next
  case (Cons arg args)
  show ?case
  proof (cases "find_action format_group arg")
    case None
    then have "taken_actions (arg # args) = taken_actions args"
      by (simp add: taken_actions_def)
    with None Cons.IH [of seen v] show ?thesis
      by simp
  next
    case (Some a)
    then have t: "taken_actions (arg # args) = a # taken_actions args"
      by (simp add: taken_actions_def)
    show ?thesis
    proof (cases "\<exists>b \<in> set seen. b \<noteq> a")
      case True
      with Some t show ?thesis
        by auto
    next
      case False
      then have s: "\<forall>b \<in> set seen. b = a"
        by simp
      have "take_actions seen v (arg # args) = take_actions (a # seen) (Some (const a)) args"
        using Some False by simp
      also have "\<dots> =
        (if \<exists>c \<in> set (taken_actions args).
              \<exists>b \<in> set (a # seen) \<union> set (taken_actions args). b \<noteq> c
         then Inl ''not allowed with argument''
         else Inr (if taken_actions args = [] then Some (const a)
                   else Some (const (last (taken_actions args)))))"
        by (rule Cons.IH)
      also have "(\<exists>c \<in> set (taken_actions args).
              \<exists>b \<in> set (a # seen) \<union> set (taken_actions args). b \<noteq> c)
          \<longleftrightarrow> (\<exists>c \<in> set (a # taken_actions args).
              \<exists>b \<in> set seen \<union> set (a # taken_actions args). b \<noteq> c)"
        using s by auto
      finally show ?thesis
        by (simp add: t)
    qed
  qed
qed

lemma parse_output_format_eq:
  "parse_output_format args =
     (if \<exists>c \<in> set (taken_actions args). \<exists>b \<in> set (taken_actions args). b \<noteq> c
      then Inl ''not allowed with argument''
      else Inr (Some (if taken_actions args = [] then ''html''
                      else const (last (taken_actions args)))))"
  by (simp add: parse_output_format_def take_actions_eq format_group_def)

lemma taken_actions_iff:
  "a \<in> set (taken_actions args) \<longleftrightarrow> (\<exists>arg \<in> set args. find_action format_group arg = Some a)"
  by (induction args) (auto simp: taken_actions_def split: option.splits)

lemma find_action_option_string:
  "find_action actions arg = Some a \<Longrightarrow> arg \<in> set (option_strings a)"
  by (induction actions) (auto split: if_splits)

lemma parse_output_format_single:
  assumes "\<exists>arg \<in> set args. find_action format_group arg = Some a"
    and "\<forall>arg \<in> set args. find_action format_group arg = None
           \<or> find_action format_group arg = Some a"
  shows "parse_output_format args = Inr (Some (const a))"
proof -
  from assms(1) have m: "a \<in> set (taken_actions args)"
    by (simp add: taken_actions_iff)
  have "c = a" if "c \<in> set (taken_actions args)" for c
  proof -
    from that obtain arg where "arg \<in> set args" "find_action format_group arg = Some c"
      by (auto simp: taken_actions_iff)
    with assms(2) show ?thesis
      by force
  qed
  then have u: "\<forall>c \<in> set (taken_actions args). c = a"
    by simp
  from m have n: "taken_actions args \<noteq> []"
    by auto
  then have "last (taken_actions args) \<in> set (taken_actions args)"
    by simp
  with u have l: "last (taken_actions args) = a"
    by simp
  have "b = c" if "c \<in> set (taken_actions args)" "b \<in> set (taken_actions args)" for b c
  proof -
    from that u have "b = a" "c = a"
      by blast+
    then show ?thesis
      by simp
  qed
  then have "\<not> (\<exists>c \<in> set (taken_actions args). \<exists>b \<in> set (taken_actions args). b \<noteq> c)"
    by blast
  then have "parse_output_format args = Inr (Some (const (last (taken_actions args))))"
    using n by (simp only: parse_output_format_eq if_False)
  then show ?thesis
    by (simp only: l)
qed

lemma parse_output_format_none:
  assumes "\<forall>arg \<in> set args. find_action format_group arg = None"
  shows "parse_output_format args = Inr (Some ''html'')"
proof -
  from assms have "taken_actions args = []"
    using taken_actions_iff [of _ args] by (cases "taken_actions args") force+
  then show ?thesis
    by (simp add: parse_output_format_eq)
qed

lemma find_action_plist_only:
  assumes "find_action format_group arg = Some a"
    and "arg \<notin> {''--plist-html'', ''-plist-html'', ''--plist-multi-file'', ''-plist-multi-file''}"
  shows "a = \<lparr>option_strings = [''--plist'', ''-plist''], const = ''plist'', default = ''html''\<rparr>"
proof -
  from assms(1) have "a \<in> set format_group" "arg \<in> set (option_strings a)"
    by (auto dest: find_action_member find_action_option_string)
  with assms(2) show ?thesis
    by (auto simp: format_group_def)
qed

text \<open>
  Claim C5. At all times \<open>output_format\<close> holds one of the four values \<^verbatim>\<open>html\<close>, \<^verbatim>\<open>plist\<close>, \<^verbatim>\<open>plist-html\<close>, \<^verbatim>\<open>plist-multi-file\<close>: the parser gives it \<^verbatim>\<open>html\<close> when no format flag occurs, every successful parse leaves one of the four, and normalization does not touch the field. A command line whose format flags all name one action is accepted and yields the constant of that action; in particular a command line with \<^verbatim>\<open>--plist\<close> (or \<^verbatim>\<open>-plist\<close>) and no option string of the two other format flags is accepted and yields \<^verbatim>\<open>plist\<close>. The three format flags exclude one another: the parse succeeds exactly when no two format flags of the command line name different actions, and a command line with two different ones is refused, so no other format flag can alter the field next to \<^verbatim>\<open>--plist\<close>.
\<close>

theorem output_format_one_of_four:
  "parse_output_format [] = Inr (Some ''html'')
   \<and> (\<forall>v. parse_output_format args = Inr v \<longrightarrow>
         v = Some ''html'' \<or> v = Some ''plist'' \<or> v = Some ''plist-html''
         \<or> v = Some ''plist-multi-file'')
   \<and> ((\<forall>arg \<in> set args. find_action format_group arg = None) \<longrightarrow>
         parse_output_format args = Inr (Some ''html''))
   \<and> (\<forall>a. (\<exists>arg \<in> set args. find_action format_group arg = Some a)
         \<and> (\<forall>arg \<in> set args. find_action format_group arg = None
               \<or> find_action format_group arg = Some a) \<longrightarrow>
         parse_output_format args = Inr (Some (const a)))
   \<and> ((''--plist'' \<in> set args \<or> ''-plist'' \<in> set args)
        \<and> (\<forall>arg \<in> set args. arg \<notin> {''--plist-html'', ''-plist-html'',
                                     ''--plist-multi-file'', ''-plist-multi-file''}) \<longrightarrow>
         parse_output_format args = Inr (Some ''plist''))
   \<and> (''--plist'' \<in> set args \<or> ''-plist'' \<in> set args \<longrightarrow>
         parse_output_format args = Inr (Some ''plist'')
         \<or> parse_output_format args = Inl ''not allowed with argument'')
   \<and> ((\<exists>v. parse_output_format args = Inr v) \<longleftrightarrow>
        (\<forall>x y a b. x \<in> set args \<and> y \<in> set args \<and> find_action format_group x = Some a
           \<and> find_action format_group y = Some b \<longrightarrow> a = b))
   \<and> (\<forall>x y a b. x \<in> set args \<and> y \<in> set args \<and> find_action format_group x = Some a
         \<and> find_action format_group y = Some b \<and> a \<noteq> b \<longrightarrow>
         parse_output_format args = Inl ''not allowed with argument'')
   \<and> (\<forall>cwd namespace namespace'. normalize_args_for_analyze cwd namespace namespace' \<longrightarrow>
         output_format namespace' = output_format namespace)"
proof -
  let ?plist = "\<lparr>option_strings = [''--plist'', ''-plist''], const = ''plist'',
                  default = ''html''\<rparr>"
  have c1: "parse_output_format [] = Inr (Some ''html'')"
    by (simp add: parse_output_format_eq taken_actions_def)
  have c2: "v = Some ''html'' \<or> v = Some ''plist'' \<or> v = Some ''plist-html''
         \<or> v = Some ''plist-multi-file''" if v: "parse_output_format args = Inr v" for v
  proof (cases "taken_actions args = []")
    case True
    with v show ?thesis
      by (simp add: parse_output_format_eq)
  next
    case False
    then have "last (taken_actions args) \<in> set (taken_actions args)"
      by simp
    then obtain arg where "find_action format_group arg = Some (last (taken_actions args))"
      by (auto simp: taken_actions_iff)
    from find_action_format_group [OF this] v False show ?thesis
      by (auto simp: parse_output_format_eq split: if_splits)
  qed
  have c3: "parse_output_format args = Inr (Some ''html'')"
    if "\<forall>arg \<in> set args. find_action format_group arg = None"
    using that by (rule parse_output_format_none)
  have c4: "parse_output_format args = Inr (Some (const a))"
    if "(\<exists>arg \<in> set args. find_action format_group arg = Some a)
         \<and> (\<forall>arg \<in> set args. find_action format_group arg = None
               \<or> find_action format_group arg = Some a)" for a
    using that parse_output_format_single by blast
  have p: "\<exists>arg \<in> set args. find_action format_group arg = Some ?plist"
    if "''--plist'' \<in> set args \<or> ''-plist'' \<in> set args"
    using that find_action_plist by blast
  have c5: "parse_output_format args = Inr (Some ''plist'')"
    if h: "(''--plist'' \<in> set args \<or> ''-plist'' \<in> set args)
        \<and> (\<forall>arg \<in> set args. arg \<notin> {''--plist-html'', ''-plist-html'',
                                     ''--plist-multi-file'', ''-plist-multi-file''})"
  proof -
    have "find_action format_group arg = None \<or> find_action format_group arg = Some ?plist"
      if "arg \<in> set args" for arg
    proof (cases "find_action format_group arg")
      case None
      then show ?thesis by simp
    next
      case (Some a)
      from h that have "arg \<notin> {''--plist-html'', ''-plist-html'',
                                     ''--plist-multi-file'', ''-plist-multi-file''}"
        by blast
      with Some find_action_plist_only show ?thesis
        by blast
    qed
    with p h have "parse_output_format args = Inr (Some (const ?plist))"
      by (intro parse_output_format_single) blast+
    then show ?thesis
      by simp
  qed
  have c6: "parse_output_format args = Inr (Some ''plist'')
         \<or> parse_output_format args = Inl ''not allowed with argument''"
    if "''--plist'' \<in> set args \<or> ''-plist'' \<in> set args"
  proof -
    from p [OF that] have m: "?plist \<in> set (taken_actions args)"
      by (simp add: taken_actions_iff)
    show ?thesis
    proof (cases "\<exists>c \<in> set (taken_actions args). \<exists>b \<in> set (taken_actions args). b \<noteq> c")
      case True
      then show ?thesis
        by (simp add: parse_output_format_eq)
    next
      case False
      from m have n: "taken_actions args \<noteq> []"
        by auto
      then have "last (taken_actions args) \<in> set (taken_actions args)"
        by simp
      with False m have "last (taken_actions args) = ?plist"
        by blast
      with False n show ?thesis
        by (simp add: parse_output_format_eq)
    qed
  qed
  have conflict: "(\<exists>c \<in> set (taken_actions args). \<exists>b \<in> set (taken_actions args). b \<noteq> c)
      \<longleftrightarrow> (\<exists>x y a b. x \<in> set args \<and> y \<in> set args \<and> find_action format_group x = Some a
           \<and> find_action format_group y = Some b \<and> a \<noteq> b)"
  proof
    assume "\<exists>c \<in> set (taken_actions args). \<exists>b \<in> set (taken_actions args). b \<noteq> c"
    then obtain c b where "c \<in> set (taken_actions args)" "b \<in> set (taken_actions args)"
      "b \<noteq> c"
      by blast
    then obtain x y where "x \<in> set args" "find_action format_group x = Some b"
      "y \<in> set args" "find_action format_group y = Some c"
      by (auto simp: taken_actions_iff)
    with \<open>b \<noteq> c\<close> show "\<exists>x y a b. x \<in> set args \<and> y \<in> set args
           \<and> find_action format_group x = Some a
           \<and> find_action format_group y = Some b \<and> a \<noteq> b"
      by blast
  next
    assume "\<exists>x y a b. x \<in> set args \<and> y \<in> set args \<and> find_action format_group x = Some a
           \<and> find_action format_group y = Some b \<and> a \<noteq> b"
    then obtain x y a b where "x \<in> set args" "y \<in> set args"
      "find_action format_group x = Some a" "find_action format_group y = Some b" "a \<noteq> b"
      by blast
    then have "a \<in> set (taken_actions args)" "b \<in> set (taken_actions args)"
      by (auto simp: taken_actions_iff)
    with \<open>a \<noteq> b\<close>
    show "\<exists>c \<in> set (taken_actions args). \<exists>b \<in> set (taken_actions args). b \<noteq> c"
      by blast
  qed
  have c7: "(\<exists>v. parse_output_format args = Inr v) \<longleftrightarrow>
        (\<forall>x y a b. x \<in> set args \<and> y \<in> set args \<and> find_action format_group x = Some a
           \<and> find_action format_group y = Some b \<longrightarrow> a = b)"
  proof (cases "\<exists>c \<in> set (taken_actions args). \<exists>b \<in> set (taken_actions args). b \<noteq> c")
    case True
    then have "parse_output_format args = Inl ''not allowed with argument''"
      by (simp add: parse_output_format_eq)
    moreover from True conflict have "\<not> (\<forall>x y a b. x \<in> set args \<and> y \<in> set args
           \<and> find_action format_group x = Some a
           \<and> find_action format_group y = Some b \<longrightarrow> a = b)"
      by blast
    ultimately show ?thesis
      by simp
  next
    case False
    then have "\<exists>v. parse_output_format args = Inr v"
      by (simp add: parse_output_format_eq)
    moreover from False conflict have "\<forall>x y a b. x \<in> set args \<and> y \<in> set args
           \<and> find_action format_group x = Some a
           \<and> find_action format_group y = Some b \<longrightarrow> a = b"
      by blast
    ultimately show ?thesis
      by simp
  qed
  have c8: "parse_output_format args = Inl ''not allowed with argument''"
    if "x \<in> set args \<and> y \<in> set args \<and> find_action format_group x = Some a
         \<and> find_action format_group y = Some b \<and> a \<noteq> b" for x y a b
  proof -
    from that conflict
    have "\<exists>c \<in> set (taken_actions args). \<exists>b \<in> set (taken_actions args). b \<noteq> c"
      by blast
    then show ?thesis
      by (simp add: parse_output_format_eq)
  qed
  have c9: "output_format namespace' = output_format namespace"
    if "normalize_args_for_analyze cwd namespace namespace'" for cwd namespace namespace'
  proof -
    from that obtain ys where
      "namespace' = namespace\<lparr>plugins := Some (case plugins namespace of None \<Rightarrow> []
                                  | Some ps \<Rightarrow> ps), excludes := ys\<rparr>"
      by (rule normalize_cases)
    then show ?thesis
      by simp
  qed
  show ?thesis
  proof (intro conjI allI impI)
    show "parse_output_format [] = Inr (Some ''html'')"
      by (rule c1)
    show "(\<exists>v. parse_output_format args = Inr v) \<longleftrightarrow>
        (\<forall>x y a b. x \<in> set args \<and> y \<in> set args \<and> find_action format_group x = Some a
           \<and> find_action format_group y = Some b \<longrightarrow> a = b)"
      by (rule c7)
  next
    fix v
    assume "parse_output_format args = Inr v"
    then show "v = Some ''html'' \<or> v = Some ''plist'' \<or> v = Some ''plist-html''
         \<or> v = Some ''plist-multi-file''"
      by (rule c2)
  next
    assume "\<forall>arg \<in> set args. find_action format_group arg = None"
    then show "parse_output_format args = Inr (Some ''html'')"
      by (rule c3)
  next
    fix a
    assume "(\<exists>arg \<in> set args. find_action format_group arg = Some a)
         \<and> (\<forall>arg \<in> set args. find_action format_group arg = None
               \<or> find_action format_group arg = Some a)"
    then show "parse_output_format args = Inr (Some (const a))"
      by (rule c4)
  next
    assume "(''--plist'' \<in> set args \<or> ''-plist'' \<in> set args)
        \<and> (\<forall>arg \<in> set args. arg \<notin> {''--plist-html'', ''-plist-html'',
                                     ''--plist-multi-file'', ''-plist-multi-file''})"
    then show "parse_output_format args = Inr (Some ''plist'')"
      by (rule c5)
  next
    assume "''--plist'' \<in> set args \<or> ''-plist'' \<in> set args"
    then show "parse_output_format args = Inr (Some ''plist'')
         \<or> parse_output_format args = Inl ''not allowed with argument''"
      by (rule c6)
  next
    fix x y a b
    assume "x \<in> set args \<and> y \<in> set args \<and> find_action format_group x = Some a
         \<and> find_action format_group y = Some b \<and> a \<noteq> b"
    then show "parse_output_format args = Inl ''not allowed with argument''"
      by (rule c8)
  next
    fix cwd namespace namespace'
    assume "normalize_args_for_analyze cwd namespace namespace'"
    then show "output_format namespace' = output_format namespace"
      by (rule c9)
  qed
qed

text \<open>
  The theorem at command lines with both option strings of \<^verbatim>\<open>--plist\<close>, with two different format flags, with one other format flag and with none, and at the normalization of \<open>parsed_example\<close>.
\<close>

theorem output_format_one_of_four_witness:
  "''--plist'' \<in> set [''--verbose'', ''--plist'', ''-plist'']
   \<and> parse_output_format [''--verbose'', ''--plist'', ''-plist''] = Inr (Some ''plist'')
   \<and> parse_output_format [''--plist'', ''--plist-html''] = Inl ''not allowed with argument''
   \<and> parse_output_format [''--plist-multi-file''] = Inr (Some ''plist-multi-file'')
   \<and> parse_output_format [''--verbose''] = Inr (Some ''html'')
   \<and> normalize_args_for_analyze ''/work'' parsed_example normalized_example
   \<and> output_format normalized_example = output_format parsed_example"
proof -
  note t = output_format_one_of_four [of "[''--verbose'', ''--plist'', ''-plist'']"]
  have m: "''--plist'' \<in> set [''--verbose'', ''--plist'', ''-plist'']"
    by simp
  have "(''--plist'' \<in> set [''--verbose'', ''--plist'', ''-plist'']
          \<or> ''-plist'' \<in> set [''--verbose'', ''--plist'', ''-plist''])
        \<and> (\<forall>arg \<in> set [''--verbose'', ''--plist'', ''-plist''].
              arg \<notin> {''--plist-html'', ''-plist-html'', ''--plist-multi-file'',
                        ''-plist-multi-file''})"
    by simp
  with t [THEN conjunct2, THEN conjunct2, THEN conjunct2, THEN conjunct2, THEN conjunct1]
  have 1: "parse_output_format [''--verbose'', ''--plist'', ''-plist''] = Inr (Some ''plist'')"
    by (rule mp)
  note u = output_format_one_of_four [of "[''--plist'', ''--plist-html'']"]
  have "''--plist'' \<in> set [''--plist'', ''--plist-html'']
      \<and> ''--plist-html'' \<in> set [''--plist'', ''--plist-html'']
      \<and> find_action format_group ''--plist''
           = Some \<lparr>option_strings = [''--plist'', ''-plist''], const = ''plist'',
                   default = ''html''\<rparr>
      \<and> find_action format_group ''--plist-html''
           = Some \<lparr>option_strings = [''--plist-html'', ''-plist-html''],
                   const = ''plist-html'', default = ''html''\<rparr>
      \<and> \<lparr>option_strings = [''--plist'', ''-plist''], const = ''plist'', default = ''html''\<rparr>
          \<noteq> \<lparr>option_strings = [''--plist-html'', ''-plist-html''],
               const = ''plist-html'', default = ''html''\<rparr>"
    by (simp add: format_group_def)
  with u [THEN conjunct2, THEN conjunct2, THEN conjunct2, THEN conjunct2, THEN conjunct2,
      THEN conjunct2, THEN conjunct2, THEN conjunct1, THEN spec, THEN spec, THEN spec,
      THEN spec]
  have 2: "parse_output_format [''--plist'', ''--plist-html''] = Inl ''not allowed with argument''"
    by (rule mp)
  have 3: "parse_output_format [''--plist-multi-file''] = Inr (Some ''plist-multi-file'')"
    by (simp add: parse_output_format_def format_group_def)
  note w = output_format_one_of_four [of "[''--verbose'']"]
  have "\<forall>arg \<in> set [''--verbose'']. find_action format_group arg = None"
    by (simp add: format_group_def)
  with w [THEN conjunct2, THEN conjunct2, THEN conjunct1]
  have 4: "parse_output_format [''--verbose''] = Inr (Some ''html'')"
    by (rule mp)
  from w [THEN conjunct2, THEN conjunct2, THEN conjunct2, THEN conjunct2, THEN conjunct2,
      THEN conjunct2, THEN conjunct2, THEN conjunct2, THEN spec, THEN spec, THEN spec]
    normalize_example
  have 5: "output_format normalized_example = output_format parsed_example"
    by (rule mp)
  from m 1 2 3 4 5 normalize_example show ?thesis
    by (intro conjI)
qed

end
